theory Spec2Isabelle
  imports Complex_Main "HOL-Library.Word" "HOL-Library.Sublist" "HOL-Library.Multiset"
begin

section \<open>JavaScript strings\<close>

text \<open>
  A JavaScript string is a sequence of UTF-16 code units and \<^verbatim>\<open>.length\<close> counts code
  units, so a string is a list of 16-bit words. \<open>js\<close> writes an ASCII literal.
\<close>

type_synonym jsstring = "16 word list"

definition js :: "string \<Rightarrow> jsstring" where
  "js s = map (\<lambda>c. of_nat (of_char c)) s"

text \<open>
  The regular-expression class \<^verbatim>\<open>\s\<close> and \<^verbatim>\<open>String.prototype.trim\<close> use the same set:
  ECMAScript WhiteSpace together with LineTerminator.
\<close>

definition isWhiteSpace :: "16 word \<Rightarrow> bool" where
  "isWhiteSpace c \<longleftrightarrow>
     c \<in> {0x09, 0x0A, 0x0B, 0x0C, 0x0D, 0x20, 0xA0, 0x1680, 0x2028, 0x2029,
          0x202F, 0x205F, 0x3000, 0xFEFF}
     \<or> (0x2000 \<le> c \<and> c \<le> 0x200A)"

text \<open>\<^verbatim>\<open>text.replace(/\s+/g, ' ')\<close>: every maximal run of whitespace becomes one space.\<close>

function replaceWhitespaceRuns :: "jsstring \<Rightarrow> jsstring" where
  "replaceWhitespaceRuns [] = []"
| "replaceWhitespaceRuns (c # cs) =
     (if isWhiteSpace c then 0x20 # replaceWhitespaceRuns (dropWhile isWhiteSpace cs)
      else c # replaceWhitespaceRuns cs)"
  by pat_completeness auto
termination
  by (relation "measure length") (auto simp: length_dropWhile_le less_Suc_eq_le)

text \<open>
  \<^verbatim>\<open>text.replace(/\n\s*\n/g, '\n\n')\<close>. At a line feed the greedy \<^verbatim>\<open>\s*\<close> takes the whole
  whitespace run that follows and backtracks to the last line feed in it; when the run has
  no line feed there is no match at this position and the character is copied.
\<close>

definition afterLastNewline :: "jsstring \<Rightarrow> jsstring" where
  "afterLastNewline run = rev (takeWhile (\<lambda>x. x \<noteq> 0x0A) (rev run))"

lemma length_afterLastNewline:
  "0x0A \<in> set run \<Longrightarrow> length (afterLastNewline run) < length run"
proof -
  assume "0x0A \<in> set run"
  then have "0x0A \<in> set (rev run)" by simp
  then have "takeWhile (\<lambda>x. x \<noteq> 0x0A) (rev run) \<noteq> rev run"
    by (metis (mono_tags, lifting) takeWhile_eq_all_conv)
  moreover have "length (takeWhile (\<lambda>x. x \<noteq> 0x0A) (rev run)) \<le> length (rev run)"
    by (rule length_takeWhile_le)
  ultimately have "length (takeWhile (\<lambda>x. x \<noteq> 0x0A) (rev run)) < length (rev run)"
    by (metis (no_types, lifting) le_neq_implies_less takeWhile_eq_take take_all_iff order_refl)
  then show ?thesis by (simp add: afterLastNewline_def)
qed

function replaceBlankLines :: "jsstring \<Rightarrow> jsstring" where
  "replaceBlankLines [] = []"
| "replaceBlankLines (c # cs) =
     (if c = 0x0A \<and> 0x0A \<in> set (takeWhile isWhiteSpace cs)
      then [0x0A, 0x0A] @
           replaceBlankLines (afterLastNewline (takeWhile isWhiteSpace cs) @ dropWhile isWhiteSpace cs)
      else c # replaceBlankLines cs)"
  by pat_completeness auto
termination
proof (relation "measure length", goal_cases)
  case 1
  show ?case by simp
next
  case (2 c cs)
  then have "length (afterLastNewline (takeWhile isWhiteSpace cs)) < length (takeWhile isWhiteSpace cs)"
    by (simp add: length_afterLastNewline)
  moreover have "length (takeWhile isWhiteSpace cs) + length (dropWhile isWhiteSpace cs) = length cs"
    by (metis length_append takeWhile_dropWhile_id)
  ultimately show ?case by simp
next
  case (3 c cs)
  show ?case by simp
qed

text \<open>\<^verbatim>\<open>String.prototype.trim\<close>.\<close>

definition trim :: "jsstring \<Rightarrow> jsstring" where
  "trim s = rev (dropWhile isWhiteSpace (rev (dropWhile isWhiteSpace s)))"

text \<open>
  \<^verbatim>\<open>content.split(/\s+/)\<close>: the pieces between the maximal whitespace runs. The pattern
  cannot match the empty string, so the empty string splits into one empty piece.
\<close>

function splitWhitespace :: "jsstring \<Rightarrow> jsstring list" where
  "splitWhitespace s =
     (case dropWhile (\<lambda>c. \<not> isWhiteSpace c) s of
        [] \<Rightarrow> [s]
      | c # rest \<Rightarrow> takeWhile (\<lambda>c. \<not> isWhiteSpace c) s # splitWhitespace (dropWhile isWhiteSpace rest))"
  by pat_completeness auto
termination
proof (relation "measure length", goal_cases)
  case 1
  show ?case by simp
next
  case (2 s c rest)
  have "length (dropWhile isWhiteSpace rest) \<le> length rest"
    by (rule length_dropWhile_le)
  moreover have "length (dropWhile (\<lambda>c. \<not> isWhiteSpace c) s) \<le> length s"
    by (rule length_dropWhile_le)
  ultimately show ?case using 2 by simp
qed

declare splitWhitespace.simps [simp del]


section \<open>The page: URL, DOM tree, selectors\<close>

text \<open>
  The DOM belongs to the browser. It is modelled as a tree of text, comment and element
  nodes; an element has a tag name, its attributes by name, and its children in document
  order.
\<close>

datatype node =
    Text jsstring
  | Comment jsstring
  | Element jsstring "(jsstring \<times> jsstring) list" "node list"

text \<open>
  The selectors of \<^verbatim>\<open>mainSelectors\<close> and \<^verbatim>\<open>removeSelectors\<close> are of four simple kinds:
  a type selector \<^verbatim>\<open>article\<close>, a class selector \<^verbatim>\<open>.post\<close>, an ID selector \<^verbatim>\<open>#main\<close> and an
  attribute selector \<^verbatim>\<open>[role="main"]\<close>.
\<close>

datatype selector =
    TagSel jsstring
  | ClassSel jsstring
  | IdSel jsstring
  | AttrSel jsstring jsstring

text \<open>
  A class attribute is a set of tokens separated by ASCII whitespace. Tag and attribute
  names are the lower-case names of an HTML document; class names, IDs and attribute
  values are compared as they are written.
\<close>

definition isAsciiWhitespace :: "16 word \<Rightarrow> bool" where
  "isAsciiWhitespace c \<longleftrightarrow> c \<in> {0x09, 0x0A, 0x0C, 0x0D, 0x20}"

function classTokens :: "jsstring \<Rightarrow> jsstring list" where
  "classTokens s =
     (case dropWhile isAsciiWhitespace s of
        [] \<Rightarrow> []
      | c # rest \<Rightarrow>
          takeWhile (\<lambda>x. \<not> isAsciiWhitespace x) (c # rest)
            # classTokens (dropWhile (\<lambda>x. \<not> isAsciiWhitespace x) rest))"
  by pat_completeness auto
termination
proof (relation "measure length", goal_cases)
  case 1
  show ?case by simp
next
  case (2 s c rest)
  have "length (dropWhile (\<lambda>x. \<not> isAsciiWhitespace x) rest) \<le> length rest"
    by (rule length_dropWhile_le)
  moreover have "length (dropWhile isAsciiWhitespace s) \<le> length s"
    by (rule length_dropWhile_le)
  ultimately show ?case using 2 by simp
qed

declare classTokens.simps [simp del]

fun matches :: "selector \<Rightarrow> node \<Rightarrow> bool" where
  "matches (TagSel t) (Element tag attrs kids) = (tag = t)"
| "matches (ClassSel c) (Element tag attrs kids) =
     (case map_of attrs (js ''class'') of
        None \<Rightarrow> False
      | Some v \<Rightarrow> c \<in> set (classTokens v))"
| "matches (IdSel i) (Element tag attrs kids) = (map_of attrs (js ''id'') = Some i)"
| "matches (AttrSel a v) (Element tag attrs kids) = (map_of attrs a = Some v)"
| "matches sel (Text s) = False"
| "matches sel (Comment s) = False"

text \<open>The elements of a subtree in document order, the root of the subtree first.\<close>

fun elementsOf :: "node \<Rightarrow> node list" where
  "elementsOf (Element tag attrs kids) =
     Element tag attrs kids # concat (map elementsOf kids)"
| "elementsOf (Text s) = []"
| "elementsOf (Comment s) = []"

text \<open>\<^verbatim>\<open>document.querySelector(selector)\<close>: the first matching element of the document.\<close>

definition querySelector :: "node \<Rightarrow> selector \<Rightarrow> node option" where
  "querySelector docElem sel = find (matches sel) (elementsOf docElem)"

text \<open>\<^verbatim>\<open>node.textContent\<close>: the text of all text descendants, comments left out.\<close>

fun textContent :: "node \<Rightarrow> jsstring" where
  "textContent (Text s) = s"
| "textContent (Comment s) = []"
| "textContent (Element tag attrs kids) = concat (map textContent kids)"

text \<open>
  \<^verbatim>\<open>clone.querySelectorAll(combinedSelector).forEach(el => el.remove())\<close>: every descendant
  of the clone that matches one of the selectors leaves the tree with its subtree. The
  clone itself is not among its own descendants.
\<close>

fun removeAll :: "selector list \<Rightarrow> node \<Rightarrow> node" where
  "removeAll sels (Element tag attrs kids) =
     Element tag attrs
       (map (removeAll sels) (filter (\<lambda>k. \<not> (\<exists>s \<in> set sels. matches s k)) kids))"
| "removeAll sels (Text s) = Text s"
| "removeAll sels (Comment s) = Comment s"

text \<open>
  \<^verbatim>\<open>document.body\<close>: the first child of the \<^verbatim>\<open>html\<close> element that is a \<^verbatim>\<open>body\<close> or a
  \<^verbatim>\<open>frameset\<close> element, and null when there is none.
\<close>

fun isBody :: "node \<Rightarrow> bool" where
  "isBody (Element tag attrs kids) = (tag = js ''body'' \<or> tag = js ''frameset'')"
| "isBody (Text s) = False"
| "isBody (Comment s) = False"

fun body :: "node \<Rightarrow> node option" where
  "body (Element tag attrs kids) = (if tag = js ''html'' then find isBody kids else None)"
| "body (Text s) = None"
| "body (Comment s) = None"

text \<open>
  What the content script reads from its page: \<^verbatim>\<open>window.location.href\<close>,
  \<^verbatim>\<open>window.location.hostname\<close>, \<^verbatim>\<open>document.title\<close>, the document element, the flag
  \<^verbatim>\<open>window.__browsingDigestLoaded\<close>, and the clock (\<^verbatim>\<open>new Date().toISOString()\<close>).
\<close>

record page =
  location_href :: jsstring
  location_hostname :: jsstring
  document_title :: jsstring
  documentElement :: node
  browsingDigestLoaded :: bool
  clock :: jsstring

section \<open>Content script: eligibility gate\<close>

text \<open>
  The entries of \<^verbatim>\<open>skipPatterns\<close> are literals, anchored at the start (\<^verbatim>\<open>/^chrome:/\<close>) or
  not (\<^verbatim>\<open>/localhost/\<close>, where \<^verbatim>\<open>\.\<close> is a literal dot).
\<close>

datatype pattern = StartsWith jsstring | Anywhere jsstring

fun startsWith :: "jsstring \<Rightarrow> jsstring \<Rightarrow> bool" where
  "startsWith [] s = True"
| "startsWith (p # ps) [] = False"
| "startsWith (p # ps) (c # cs) = (p = c \<and> startsWith ps cs)"

fun occursIn :: "jsstring \<Rightarrow> jsstring \<Rightarrow> bool" where
  "occursIn p [] = startsWith p []"
| "occursIn p (c # cs) = (startsWith p (c # cs) \<or> occursIn p cs)"

fun test :: "pattern \<Rightarrow> jsstring \<Rightarrow> bool" where
  "test (StartsWith p) s = startsWith p s"
| "test (Anywhere p) s = occursIn p s"

definition skipPatterns :: "pattern list" where
  "skipPatterns =
     [StartsWith (js ''chrome:''),
      StartsWith (js ''chrome-extension:''),
      StartsWith (js ''about:''),
      StartsWith (js ''file:''),
      StartsWith (js ''data:''),
      StartsWith (js ''blob:''),
      Anywhere (js ''localhost''),
      Anywhere (js ''127.0.0.1''),
      Anywhere (js ''.local'')]"

text \<open>\<^verbatim>\<open>skipPatterns.some(pattern => pattern.test(currentUrl))\<close>\<close>

definition skipUrl :: "jsstring \<Rightarrow> bool" where
  "skipUrl currentUrl = list_ex (\<lambda>pattern. test pattern currentUrl) skipPatterns"


section \<open>Content script: extraction\<close>

definition mainSelectors :: "selector list" where
  "mainSelectors =
     [TagSel (js ''article''),
      AttrSel (js ''role'') (js ''main''),
      TagSel (js ''main''),
      ClassSel (js ''post-content''),
      ClassSel (js ''article-content''),
      ClassSel (js ''entry-content''),
      ClassSel (js ''content''),
      ClassSel (js ''post''),
      IdSel (js ''content''),
      IdSel (js ''main'')]"

definition removeSelectors :: "selector list" where
  "removeSelectors =
     [TagSel (js ''script''),
      TagSel (js ''style''),
      TagSel (js ''noscript''),
      TagSel (js ''iframe''),
      TagSel (js ''nav''),
      TagSel (js ''header''),
      TagSel (js ''footer''),
      TagSel (js ''aside''),
      ClassSel (js ''sidebar''),
      ClassSel (js ''navigation''),
      ClassSel (js ''nav''),
      ClassSel (js ''menu''),
      ClassSel (js ''comments''),
      ClassSel (js ''comment''),
      ClassSel (js ''advertisement''),
      ClassSel (js ''ad''),
      ClassSel (js ''ads''),
      ClassSel (js ''social-share''),
      ClassSel (js ''share-buttons''),
      ClassSel (js ''related-posts''),
      ClassSel (js ''recommended''),
      AttrSel (js ''role'') (js ''navigation''),
      AttrSel (js ''role'') (js ''banner''),
      AttrSel (js ''role'') (js ''complementary''),
      AttrSel (js ''aria-hidden'') (js ''true'')]"

text \<open>
  The loop over the selectors: the first selector whose first match has more than 200
  code units of trimmed text ends the loop with that element; a selector with no match,
  or with a first match that is too short, is passed over.
\<close>

fun findMainElement :: "node \<Rightarrow> selector list \<Rightarrow> node option" where
  "findMainElement docElem [] = None"
| "findMainElement docElem (selector # rest) =
     (case querySelector docElem selector of
        None \<Rightarrow> findMainElement docElem rest
      | Some element \<Rightarrow>
          if length (trim (textContent element)) > 200 then Some element
          else findMainElement docElem rest)"

text \<open>The element the text is taken from: the loop's result, else \<^verbatim>\<open>document.body\<close>.\<close>

definition mainElement :: "node \<Rightarrow> node option" where
  "mainElement docElem =
     (case findMainElement docElem mainSelectors of
        Some element \<Rightarrow> Some element
      | None \<Rightarrow> body docElem)"

definition cleanWhitespace :: "jsstring \<Rightarrow> jsstring" where
  "cleanWhitespace text = trim (replaceBlankLines (replaceWhitespaceRuns text))"

definition maxLength :: nat where
  "maxLength = 5000"

definition truncateText :: "jsstring \<Rightarrow> jsstring" where
  "truncateText text =
     (if length text > maxLength then take maxLength text @ js ''... [truncated]'' else text)"

text \<open>
  With no selected element and no body, \<^verbatim>\<open>mainElement.cloneNode\<close> throws a TypeError.
\<close>

datatype error = TypeError

definition extractMainContent :: "node \<Rightarrow> error + jsstring" where
  "extractMainContent docElem =
     (case mainElement docElem of
        None \<Rightarrow> Inl TypeError
      | Some element \<Rightarrow>
          Inr (truncateText (cleanWhitespace (textContent (removeAll removeSelectors element)))))"

record pageData =
  url :: jsstring
  title :: jsstring
  domain :: jsstring
  timestamp :: jsstring
  content :: jsstring
  wordCount :: nat
  readingTime :: nat

text \<open>
  \<^verbatim>\<open>Math.ceil(wordCount / 200)\<close> is a floating-point division; a word count is far below
  \<open>2 ^ 53\<close>, where the quotient of integers is rounded to no integer it does not equal, so
  the ceiling is that of the exact quotient.
\<close>

definition extractPageData :: "page \<Rightarrow> error + pageData" where
  "extractPageData p =
     (case extractMainContent (documentElement p) of
        Inl e \<Rightarrow> Inl e
      | Inr text \<Rightarrow>
          Inr \<lparr> url = location_href p,
                title = (if document_title p = [] then js ''Untitled'' else document_title p),
                domain = location_hostname p,
                timestamp = clock p,
                content = text,
                wordCount = length (splitWhitespace text),
                readingTime = nat \<lceil>real (length (splitWhitespace text)) / 200\<rceil> \<rparr>)"

text \<open>
  One run of the content script on a page whose timer fires: what it does with the page.
  A run on a page where the flag is already set does nothing; every other run sets the
  flag. An exception in the timer callback is caught and logged, and a page that unloads
  before the two seconds are over has no run to speak of.
\<close>

datatype outcome =
    AlreadyLoaded
  | Skipped
  | ExtractionFailed error
  | NotSent
  | Sent pageData

definition contentScript :: "page \<Rightarrow> outcome" where
  "contentScript p =
     (if browsingDigestLoaded p then AlreadyLoaded
      else if skipUrl (location_href p) then Skipped
      else (case extractPageData p of
              Inl e \<Rightarrow> ExtractionFailed e
            | Inr data \<Rightarrow> if length (content data) > 100 then Sent data else NotSent))"

section \<open>Background worker: the record store\<close>

definition MAX_ENTRIES :: nat where
  "MAX_ENTRIES = 500"

text \<open>A stored entry is the page data with \<^verbatim>\<open>id\<close> and \<^verbatim>\<open>savedAt\<close> added.\<close>

record entry = pageData +
  entry_id :: jsstring
  savedAt :: jsstring

text \<open>
  \<^verbatim>\<open>chrome.storage.local\<close> holds the history under \<^verbatim>\<open>STORAGE_KEY\<close>, or nothing there yet.
  What a call cannot decide itself comes with it: \<^verbatim>\<open>chrome.runtime.lastError\<close> after the
  read and after the write, the value of \<^verbatim>\<open>generateId()\<close>, and the clock. A write that
  reports an error leaves the storage as it was.
\<close>

type_synonym storage = "entry list option"

record env =
  getLastError :: "jsstring option"
  setLastError :: "jsstring option"
  generateId :: jsstring
  now :: jsstring

text \<open>\<^verbatim>\<open>result[STORAGE_KEY] || []\<close>\<close>

definition historyOf :: "storage \<Rightarrow> entry list" where
  "historyOf st = (case st of None \<Rightarrow> [] | Some h \<Rightarrow> h)"

text \<open>\<^verbatim>\<open>history.slice(-MAX_ENTRIES)\<close>: the last \<open>MAX_ENTRIES\<close> elements, all when there are fewer.\<close>

definition sliceLast :: "nat \<Rightarrow> 'a list \<Rightarrow> 'a list" where
  "sliceLast n xs = drop (length xs - n) xs"

definition newEntry :: "env \<Rightarrow> pageData \<Rightarrow> entry" where
  "newEntry e data = pageData.extend data \<lparr> entry_id = generateId e, savedAt = now e \<rparr>"

text \<open>
  Each operation returns the promise's settlement, \<open>Inl\<close> the rejection message, and the
  storage after it.
\<close>

definition savePageData :: "env \<Rightarrow> pageData \<Rightarrow> storage \<Rightarrow> (jsstring + unit) \<times> storage" where
  "savePageData e data st =
     (case getLastError e of
        Some msg \<Rightarrow> (Inl msg, st)
      | None \<Rightarrow>
          let history = historyOf st @ [newEntry e data];
              history = (if length history > MAX_ENTRIES then sliceLast MAX_ENTRIES history
                         else history)
          in (case setLastError e of
                Some msg \<Rightarrow> (Inl msg, st)
              | None \<Rightarrow> (Inr (), Some history)))"

text \<open>
  A date argument is a string or absent; \<^verbatim>\<open>if (date)\<close> takes an absent date and the empty
  string alike as no date.
\<close>

definition given :: "jsstring option \<Rightarrow> bool" where
  "given date = (case date of None \<Rightarrow> False | Some d \<Rightarrow> d \<noteq> [])"

text \<open>
  \<^verbatim>\<open>new Date(x).toDateString()\<close> is the runtime's, in its local time zone; the operations
  take it as the parameter \<open>dateStr\<close>.
\<close>

definition getHistory ::
  "(jsstring \<Rightarrow> jsstring) \<Rightarrow> env \<Rightarrow> jsstring option \<Rightarrow> storage \<Rightarrow> jsstring + entry list" where
  "getHistory dateStr e date st =
     (case getLastError e of
        Some msg \<Rightarrow> Inl msg
      | None \<Rightarrow>
          let history = historyOf st
          in if given date
             then let filterDateStr = dateStr (the date)
                  in Inr (filter (\<lambda>entry. dateStr (timestamp entry) = filterDateStr) history)
             else Inr history)"

record exportedPage =
  page_url :: jsstring
  page_title :: jsstring
  page_content :: jsstring
  page_timestamp :: jsstring
  page_domain :: jsstring
  page_readingTime :: nat

record exportDocument =
  exportedAt :: jsstring
  export_date :: jsstring
  totalPages :: nat
  pages :: "exportedPage list"

definition exportPage :: "entry \<Rightarrow> exportedPage" where
  "exportPage entry =
     \<lparr> page_url = url entry,
       page_title = title entry,
       page_content = content entry,
       page_timestamp = timestamp entry,
       page_domain = domain entry,
       page_readingTime = readingTime entry \<rparr>"

definition exportData ::
  "(jsstring \<Rightarrow> jsstring) \<Rightarrow> env \<Rightarrow> jsstring option \<Rightarrow> storage \<Rightarrow> jsstring + exportDocument" where
  "exportData dateStr e date st =
     (case getHistory dateStr e date st of
        Inl msg \<Rightarrow> Inl msg
      | Inr history \<Rightarrow>
          Inr \<lparr> exportedAt = now e,
                export_date = (if given date then the date else js ''all''),
                totalPages = length history,
                pages = map exportPage history \<rparr>)"



text \<open>
  Appends one after the other, each with its own environment; a failed append leaves the
  storage as it was and the next one goes on from there.
\<close>

fun saveAll :: "(env \<times> pageData) list \<Rightarrow> storage \<Rightarrow> storage" where
  "saveAll [] st = st"
| "saveAll ((e, data) # rest) st = saveAll rest (snd (savePageData e data st))"

text \<open>Neither the read nor the write of an operation reports an error.\<close>

definition storageOk :: "env \<Rightarrow> bool" where
  "storageOk e \<longleftrightarrow> getLastError e = None \<and> setLastError e = None"

section \<open>The specification's words\<close>

text \<open>
  Notions that the specification uses and the code does not compute, defined from the
  specification's wording and compared with the code below.
\<close>

text \<open>
  The eligibility gate as the specification describes it: internal browser and extension
  pages, the \<^verbatim>\<open>about:\<close>, \<^verbatim>\<open>file:\<close>, \<^verbatim>\<open>data:\<close> and \<^verbatim>\<open>blob:\<close> schemes, and the hostnames
  \<^verbatim>\<open>localhost\<close>, \<^verbatim>\<open>127.0.0.1\<close> and any hostname with the suffix \<^verbatim>\<open>.local\<close>. The hostname
  is the page's \<^verbatim>\<open>window.location.hostname\<close>.
\<close>

definition endsWith :: "jsstring \<Rightarrow> jsstring \<Rightarrow> bool" where
  "endsWith p s = startsWith (rev p) (rev s)"

definition specExcluded :: "page \<Rightarrow> bool" where
  "specExcluded p \<longleftrightarrow>
     list_ex (\<lambda>scheme. startsWith scheme (location_href p))
       [js ''chrome:'', js ''chrome-extension:'', js ''about:'', js ''file:'', js ''data:'', js ''blob:'']
     \<or> location_hostname p = js ''localhost''
     \<or> location_hostname p = js ''127.0.0.1''
     \<or> endsWith (js ''.local'') (location_hostname p)"

text \<open>
  A selector qualifies in a document when its first match has more than 200 code units
  of trimmed text.
\<close>

definition qualifies :: "node \<Rightarrow> selector \<Rightarrow> bool" where
  "qualifies docElem sel =
     (case querySelector docElem sel of
        None \<Rightarrow> False
      | Some element \<Rightarrow> length (trim (textContent element)) > 200)"

text \<open>
  The whitespace-delimited tokens of a text: its maximal runs of characters that are not
  whitespace.
\<close>

function specTokens :: "jsstring \<Rightarrow> jsstring list" where
  "specTokens s =
     (case dropWhile isWhiteSpace s of
        [] \<Rightarrow> []
      | c # rest \<Rightarrow>
          takeWhile (\<lambda>x. \<not> isWhiteSpace x) (c # rest)
            # specTokens (dropWhile (\<lambda>x. \<not> isWhiteSpace x) rest))"
  by pat_completeness auto
termination
proof (relation "measure length", goal_cases)
  case 1
  show ?case by simp
next
  case (2 s c rest)
  have "length (dropWhile (\<lambda>x. \<not> isWhiteSpace x) rest) \<le> length rest"
    by (rule length_dropWhile_le)
  moreover have "length (dropWhile isWhiteSpace s) \<le> length s"
    by (rule length_dropWhile_le)
  ultimately show ?case using 2 by simp
qed

declare specTokens.simps [simp del]

section \<open>Example data\<close>

text \<open>
  A stand-in for the runtime's day string: the first ten code units of an ISO instant,
  its calendar day in UTC.
\<close>

definition isoDay :: "jsstring \<Rightarrow> jsstring" where
  "isoDay s = take 10 s"

definition exampleEnv :: "nat \<Rightarrow> env" where
  "exampleEnv i = \<lparr> getLastError = None, setLastError = None,
                    generateId = [of_nat i], now = js ''2026-02-07T08:00:00.000Z'' \<rparr>"

definition exampleData :: "jsstring \<Rightarrow> jsstring \<Rightarrow> pageData" where
  "exampleData u t = \<lparr> url = u, title = js ''Untitled'', domain = js ''example.com'',
                       timestamp = t, content = js ''some text'', wordCount = 2, readingTime = 1 \<rparr>"

definition exampleHistory :: "entry list" where
  "exampleHistory =
     [newEntry (exampleEnv 1) (exampleData (js ''https://example.com/a'') (js ''2026-02-05T09:00:00.000Z'')),
      newEntry (exampleEnv 2) (exampleData (js ''https://example.com/b'') (js ''2026-02-06T10:00:00.000Z'')),
      newEntry (exampleEnv 3) (exampleData (js ''https://example.com/c'') (js ''2026-02-05T23:30:00.000Z''))]"

definition exampleBatch :: "(env \<times> pageData) list" where
  "exampleBatch = map (\<lambda>i. (exampleEnv i, exampleData (js ''https://example.com/a'') (js ''2026-02-05T09:00:00.000Z''))) [0..<501]"

text \<open>A page with an \<^verbatim>\<open>html\<close> element, a \<^verbatim>\<open>body\<close> in it, and the given children of the body.\<close>

definition examplePage :: "jsstring \<Rightarrow> jsstring \<Rightarrow> node list \<Rightarrow> page" where
  "examplePage u h kids =
     \<lparr> location_href = u, location_hostname = h, document_title = [],
       documentElement = Element (js ''html'') [] [Element (js ''body'') [] kids],
       browsingDigestLoaded = False, clock = js ''2026-02-06T10:00:00.000Z'' \<rparr>"

text \<open>An \<^verbatim>\<open>article\<close> with 150 code units of text before a \<^verbatim>\<open>main\<close> with 400.\<close>

definition twoCandidates :: "node" where
  "twoCandidates =
     Element (js ''html'') []
       [Element (js ''body'') []
          [Element (js ''article'') [] [Text (replicate 150 0x61)],
           Element (js ''main'') [] [Text (replicate 400 0x62)]]]"

text \<open>A body whose text is 5001 letters, and a body with no children.\<close>

definition longPage :: page where
  "longPage = examplePage (js ''https://example.com/article'') (js ''example.com'') [Text (replicate 5001 0x61)]"

definition emptyPage :: page where
  "emptyPage = examplePage (js ''https://example.com/empty'') (js ''example.com'') []"

text \<open>
  A body with text, a navigation element, a comment, a paragraph of class \<^verbatim>\<open>ad\<close> and
  more text; line feeds and a tab stand between the words.
\<close>

definition wordyPage :: page where
  "wordyPage = examplePage (js ''https://example.com/article'') (js ''example.com'')
     [Text [0x20, 0x48, 0x69, 0x0A, 0x0A, 0x09, 0x61, 0x6C, 0x6C, 0x20],
      Element (js ''nav'') [] [Text (js ''menu'')],
      Comment (js ''note''),
      Element (js ''p'') [(js ''class'', js ''lead ad'')] [Text (js ''buy'')],
      Text (js ''of you '')]"

section \<open>Properties of the content script\<close>

subsection \<open>Eligibility gate\<close>

lemma startsWith_prefix: "startsWith p s \<longleftrightarrow> prefix p s"
  by (induction p s rule: startsWith.induct) simp_all

lemma occursIn_sublist: "occursIn p s \<longleftrightarrow> sublist p s"
  by (induction s) (simp_all add: startsWith_prefix sublist_Cons_right)

text \<open>
  Claim C7 as written fails: the page \<^verbatim>\<open>https://example.com/localhost\<close> has the hostname
  \<^verbatim>\<open>example.com\<close>, which is none of the excluded hostnames, and its scheme is not
  excluded, yet the content script skips it, since \<^verbatim>\<open>/localhost/\<close> matches in the path.
\<close>

theorem contentScript_skip_counterexample:
  "contentScript (examplePage (js ''https://example.com/localhost'') (js ''example.com'') []) = Skipped
   \<and> \<not> specExcluded (examplePage (js ''https://example.com/localhost'') (js ''example.com'') [])"
  by (simp add: contentScript_def skipUrl_def skipPatterns_def specExcluded_def endsWith_def examplePage_def js_def)

text \<open>
  Claim C7, amended. The gate skips a URL exactly when it starts with \<^verbatim>\<open>chrome:\<close>,
  \<^verbatim>\<open>chrome-extension:\<close>, \<^verbatim>\<open>about:\<close>, \<^verbatim>\<open>file:\<close>, \<^verbatim>\<open>data:\<close> or \<^verbatim>\<open>blob:\<close>, or contains
  \<^verbatim>\<open>localhost\<close>, \<^verbatim>\<open>127.0.0.1\<close> or \<^verbatim>\<open>.local\<close> anywhere in it; on a page where the script
  has not run before, extraction is suppressed by the gate exactly for these URLs. The
  four URLs of the claim are skipped, and \<^verbatim>\<open>https://example.com/article\<close> is not.
\<close>

theorem skipUrl_patterns:
  "(skipUrl u \<longleftrightarrow>
      prefix (js ''chrome:'') u \<or> prefix (js ''chrome-extension:'') u \<or> prefix (js ''about:'') u
      \<or> prefix (js ''file:'') u \<or> prefix (js ''data:'') u \<or> prefix (js ''blob:'') u
      \<or> sublist (js ''localhost'') u \<or> sublist (js ''127.0.0.1'') u \<or> sublist (js ''.local'') u)
   \<and> (contentScript (p\<lparr>browsingDigestLoaded := False\<rparr>) = Skipped \<longleftrightarrow> skipUrl (location_href p))
   \<and> skipUrl (js ''chrome-extension://abc/page'')
   \<and> skipUrl (js ''about:blank'')
   \<and> skipUrl (js ''http://localhost:3000'')
   \<and> skipUrl (js ''http://127.0.0.1/x'')
   \<and> \<not> skipUrl (js ''https://example.com/article'')"
proof (intro conjI)
  show "skipUrl u \<longleftrightarrow>
      prefix (js ''chrome:'') u \<or> prefix (js ''chrome-extension:'') u \<or> prefix (js ''about:'') u
      \<or> prefix (js ''file:'') u \<or> prefix (js ''data:'') u \<or> prefix (js ''blob:'') u
      \<or> sublist (js ''localhost'') u \<or> sublist (js ''127.0.0.1'') u \<or> sublist (js ''.local'') u"
    by (simp add: skipUrl_def skipPatterns_def startsWith_prefix occursIn_sublist)
  show "contentScript (p\<lparr>browsingDigestLoaded := False\<rparr>) = Skipped \<longleftrightarrow> skipUrl (location_href p)"
    by (simp add: contentScript_def split: sum.splits)
  show "skipUrl (js ''chrome-extension://abc/page'')"
    by (simp add: skipUrl_def skipPatterns_def js_def)
  show "skipUrl (js ''about:blank'')"
    by (simp add: skipUrl_def skipPatterns_def js_def)
  show "skipUrl (js ''http://localhost:3000'')"
    by (simp add: skipUrl_def skipPatterns_def js_def)
  show "skipUrl (js ''http://127.0.0.1/x'')"
    by (simp add: skipUrl_def skipPatterns_def js_def)
  show "\<not> skipUrl (js ''https://example.com/article'')"
    by (simp add: skipUrl_def skipPatterns_def js_def)
qed

theorem skipUrl_patterns_witness:
  "skipUrl (js ''https://www.localnews.com/'')
   \<and> contentScript ((examplePage (js ''https://www.localnews.com/'') (js ''www.localnews.com'') [])
         \<lparr>browsingDigestLoaded := False\<rparr>) = Skipped
   \<and> contentScript ((examplePage (js ''https://example.com/article'') (js ''example.com'') [])
         \<lparr>browsingDigestLoaded := False\<rparr>) \<noteq> Skipped"
proof -
  let ?u = "js ''https://www.localnews.com/''"
  let ?p = "examplePage ?u (js ''www.localnews.com'') []"
  let ?q = "examplePage (js ''https://example.com/article'') (js ''example.com'') []"
  have "?u = js ''https://www'' @ js ''.local'' @ js ''news.com/''"
    by (simp add: js_def)
  then have "sublist (js ''.local'') ?u"
    by (simp only: sublist_appendI)
  with skipUrl_patterns [where u = ?u] have s: "skipUrl ?u"
    by blast
  have hp: "location_href ?p = ?u" and hq: "location_href ?q = js ''https://example.com/article''"
    by (simp_all add: examplePage_def)
  from skipUrl_patterns [where p = ?p] s
  have a: "contentScript (?p\<lparr>browsingDigestLoaded := False\<rparr>) = Skipped"
    by (simp only: hp)
  from skipUrl_patterns [where p = ?q]
  have b: "contentScript (?q\<lparr>browsingDigestLoaded := False\<rparr>) \<noteq> Skipped"
    by (simp only: hq) blast
  from s a b show ?thesis by blast
qed

subsection \<open>Main-content selection\<close>

lemma findMainElement_find:
  "findMainElement docElem sels =
     (case find (qualifies docElem) sels of
        None \<Rightarrow> None
      | Some sel \<Rightarrow> querySelector docElem sel)"
  by (induction sels) (auto simp: qualifies_def split: option.splits)

lemma find_append_first:
  "list_all (\<lambda>x. \<not> P x) pre \<Longrightarrow> P x \<Longrightarrow> find P (pre @ x # post) = Some x"
  by (induction pre) simp_all

lemma trim_replicate:
  "\<not> isWhiteSpace c \<Longrightarrow> trim (replicate n c) = replicate n c"
  by (simp add: trim_def)

text \<open>
  Claim C6. The loop returns the first match of the first selector, in list order, that
  qualifies, whatever later selectors match; when no selector of \<open>mainSelectors\<close>
  qualifies, the element is the document's body. When the first \<^verbatim>\<open>article\<close> has 150 code
  units of trimmed text, \<^verbatim>\<open>[role="main"]\<close>, which stands between the two in the list,
  does not qualify, and the first \<^verbatim>\<open>main\<close> has 400, the \<^verbatim>\<open>main\<close> element is chosen.
\<close>

theorem mainElement_first_qualifying:
  "findMainElement docElem sels =
     (case find (qualifies docElem) sels of
        None \<Rightarrow> None
      | Some sel \<Rightarrow> querySelector docElem sel)
   \<and> (list_all (\<lambda>s. \<not> qualifies docElem s) pre \<and> qualifies docElem sel \<longrightarrow>
        findMainElement docElem (pre @ sel # post) = querySelector docElem sel)
   \<and> mainElement docElem =
       (case find (qualifies docElem) mainSelectors of
          None \<Rightarrow> body docElem
        | Some sel \<Rightarrow> querySelector docElem sel)
   \<and> (list_all (\<lambda>s. \<not> qualifies docElem s) mainSelectors \<longrightarrow> mainElement docElem = body docElem)
   \<and> (querySelector docElem (TagSel (js ''article'')) = Some a
        \<and> length (trim (textContent a)) = 150
        \<and> \<not> qualifies docElem (AttrSel (js ''role'') (js ''main''))
        \<and> querySelector docElem (TagSel (js ''main'')) = Some m
        \<and> length (trim (textContent m)) = 400
        \<longrightarrow> mainElement docElem = Some m)"
proof (intro conjI impI)
  show f: "findMainElement docElem sels =
     (case find (qualifies docElem) sels of None \<Rightarrow> None | Some sel \<Rightarrow> querySelector docElem sel)"
    by (rule findMainElement_find)
  show m: "mainElement docElem =
       (case find (qualifies docElem) mainSelectors of
          None \<Rightarrow> body docElem
        | Some sel \<Rightarrow> querySelector docElem sel)"
    by (auto simp: mainElement_def findMainElement_find qualifies_def split: option.splits dest: find_Some_iff [THEN iffD1])
  { assume "list_all (\<lambda>s. \<not> qualifies docElem s) pre \<and> qualifies docElem sel"
    then show "findMainElement docElem (pre @ sel # post) = querySelector docElem sel"
      by (simp add: findMainElement_find find_append_first) }
  { assume "list_all (\<lambda>s. \<not> qualifies docElem s) mainSelectors"
    then have "find (qualifies docElem) mainSelectors = None"
      by (simp add: find_None_iff list_all_iff)
    then show "mainElement docElem = body docElem"
      by (simp add: m) }
  { assume h: "querySelector docElem (TagSel (js ''article'')) = Some a
        \<and> length (trim (textContent a)) = 150
        \<and> \<not> qualifies docElem (AttrSel (js ''role'') (js ''main''))
        \<and> querySelector docElem (TagSel (js ''main'')) = Some m
        \<and> length (trim (textContent m)) = 400"
    then have "\<not> qualifies docElem (TagSel (js ''article''))"
      and "qualifies docElem (TagSel (js ''main''))"
      by (simp_all add: qualifies_def)
    with h have "find (qualifies docElem) mainSelectors = Some (TagSel (js ''main''))"
      by (simp add: mainSelectors_def)
    with h show "mainElement docElem = Some m"
      by (simp add: m) }
qed

theorem mainElement_first_qualifying_witness:
  "querySelector twoCandidates (TagSel (js ''article'')) = Some (Element (js ''article'') [] [Text (replicate 150 0x61)])
   \<and> length (trim (textContent (Element (js ''article'') [] [Text (replicate 150 0x61)]))) = 150
   \<and> \<not> qualifies twoCandidates (AttrSel (js ''role'') (js ''main''))
   \<and> querySelector twoCandidates (TagSel (js ''main'')) = Some (Element (js ''main'') [] [Text (replicate 400 0x62)])
   \<and> length (trim (textContent (Element (js ''main'') [] [Text (replicate 400 0x62)]))) = 400
   \<and> mainElement twoCandidates = Some (Element (js ''main'') [] [Text (replicate 400 0x62)])
   \<and> list_all (\<lambda>s. \<not> qualifies (Element (js ''html'') [] [Element (js ''body'') [] [Text (js ''Loading'')]]) s)
        mainSelectors
   \<and> mainElement (Element (js ''html'') [] [Element (js ''body'') [] [Text (js ''Loading'')]])
       = Some (Element (js ''body'') [] [Text (js ''Loading'')])"
proof -
  let ?a = "Element (js ''article'') [] [Text (replicate 150 0x61)]"
  let ?m = "Element (js ''main'') [] [Text (replicate 400 0x62)]"
  let ?l = "Element (js ''html'') [] [Element (js ''body'') [] [Text (js ''Loading'')]]"
  have qa: "querySelector twoCandidates (TagSel (js ''article'')) = Some ?a"
    by (simp add: querySelector_def twoCandidates_def js_def)
  have la: "length (trim (textContent ?a)) = 150"
    by (simp add: trim_replicate isWhiteSpace_def)
  have qr: "\<not> qualifies twoCandidates (AttrSel (js ''role'') (js ''main''))"
    by (simp add: qualifies_def querySelector_def twoCandidates_def js_def)
  have qm: "querySelector twoCandidates (TagSel (js ''main'')) = Some ?m"
    by (simp add: querySelector_def twoCandidates_def js_def)
  have lm: "length (trim (textContent ?m)) = 400"
    by (simp add: trim_replicate isWhiteSpace_def)
  from mainElement_first_qualifying [where docElem = twoCandidates and a = ?a and m = ?m] qa la qr qm lm
  have r: "mainElement twoCandidates = Some ?m"
    by blast
  have nl: "list_all (\<lambda>s. \<not> qualifies ?l s) mainSelectors"
    by (simp add: mainSelectors_def qualifies_def querySelector_def js_def trim_def isWhiteSpace_def)
  have bl: "body ?l = Some (Element (js ''body'') [] [Text (js ''Loading'')])"
    by (simp add: js_def)
  from mainElement_first_qualifying [where docElem = ?l] nl
  have "mainElement ?l = body ?l"
    by blast
  with bl have r2: "mainElement ?l = Some (Element (js ''body'') [] [Text (js ''Loading'')])"
    by simp
  from qa la qr qm lm r nl r2 show ?thesis by blast
qed

subsection \<open>Whitespace\<close>

lemma replaceWhitespaceRuns_id:
  "list_all (\<lambda>c. \<not> isWhiteSpace c) s \<Longrightarrow> replaceWhitespaceRuns s = s"
  by (induction s) simp_all

lemma isWhiteSpace_newline: "isWhiteSpace 0x0A"
  by (simp add: isWhiteSpace_def)

lemma newline_not_in_replaceWhitespaceRuns: "0x0A \<notin> set (replaceWhitespaceRuns s)"
  by (induction s rule: replaceWhitespaceRuns.induct) (auto simp: isWhiteSpace_newline)

lemma replaceBlankLines_id: "0x0A \<notin> set s \<Longrightarrow> replaceBlankLines s = s"
  by (induction s) auto

lemma replaceBlankLines_dead:
  "replaceBlankLines (replaceWhitespaceRuns s) = replaceWhitespaceRuns s"
  by (simp add: replaceBlankLines_id newline_not_in_replaceWhitespaceRuns)

lemma cleanWhitespace_eq: "cleanWhitespace s = trim (replaceWhitespaceRuns s)"
  by (simp add: cleanWhitespace_def replaceBlankLines_dead)

lemma set_trim: "set (trim s) \<subseteq> set s"
  by (auto simp: trim_def dest!: set_dropWhileD)

text \<open>
  Claim C9 at the text \<^verbatim>\<open>a\n\n\nb\<close>: the cleaned text is \<^verbatim>\<open>a b\<close>, with no blank line left.
  The first replacement turns every whitespace run, line feeds included, into one space,
  so the second replacement never finds a line feed and changes nothing, and the cleaned
  text of any input has no line feed.
\<close>

theorem cleanWhitespace_blank_lines:
  "cleanWhitespace [0x61, 0x0A, 0x0A, 0x0A, 0x62] = js ''a b''
   \<and> replaceBlankLines (replaceWhitespaceRuns raw) = replaceWhitespaceRuns raw
   \<and> 0x0A \<notin> set (cleanWhitespace raw)"
proof (intro conjI)
  show "cleanWhitespace [0x61, 0x0A, 0x0A, 0x0A, 0x62] = js ''a b''"
    by (simp add: cleanWhitespace_def trim_def isWhiteSpace_def js_def)
  show "replaceBlankLines (replaceWhitespaceRuns raw) = replaceWhitespaceRuns raw"
    by (rule replaceBlankLines_dead)
  show "0x0A \<notin> set (cleanWhitespace raw)"
    using set_trim [of "replaceWhitespaceRuns raw"] newline_not_in_replaceWhitespaceRuns [of raw]
    by (auto simp: cleanWhitespace_eq)
qed

lemma cleanWhitespace_replicate:
  "\<not> isWhiteSpace c \<Longrightarrow> cleanWhitespace (replicate n c) = replicate n c"
  by (simp add: cleanWhitespace_eq replaceWhitespaceRuns_id list_all_iff trim_replicate)

lemma last_dropWhile: "dropWhile P xs \<noteq> [] \<Longrightarrow> last (dropWhile P xs) = last xs"
  by (metis last_appendR takeWhile_dropWhile_id)

lemma trim_ends:
  assumes "trim s \<noteq> []"
  shows "\<not> isWhiteSpace (hd (trim s))" and "\<not> isWhiteSpace (last (trim s))"
proof -
  let ?t = "dropWhile isWhiteSpace s"
  let ?u = "dropWhile isWhiteSpace (rev ?t)"
  from assms have u: "?u \<noteq> []" by (simp add: trim_def)
  have t: "?t \<noteq> []"
  proof
    assume "?t = []"
    then have "?u = []" by (simp only: rev.simps dropWhile.simps)
    with u show False by simp
  qed
  have "last (trim s) = hd ?u" using u by (simp add: trim_def last_rev)
  then show "\<not> isWhiteSpace (last (trim s))" using hd_dropWhile [OF u] by simp
  have "hd (trim s) = last ?u" using u by (simp add: trim_def hd_rev)
  also have "\<dots> = last (rev ?t)" using u by (rule last_dropWhile)
  also have "\<dots> = hd ?t" using t by (simp add: last_rev)
  finally show "\<not> isWhiteSpace (hd (trim s))" using hd_dropWhile [OF t] by simp
qed

lemma truncateText_ends:
  assumes "t = [] \<or> (\<not> isWhiteSpace (hd t) \<and> \<not> isWhiteSpace (last t))"
  shows "truncateText t = [] \<or> (\<not> isWhiteSpace (hd (truncateText t)) \<and> \<not> isWhiteSpace (last (truncateText t)))"
proof (cases "length t > maxLength")
  case False
  with assms show ?thesis by (simp add: truncateText_def)
next
  case True
  then have ne: "t \<noteq> []" and tk: "take maxLength t \<noteq> []" by (auto simp: maxLength_def)
  have h: "hd (truncateText t) = hd t"
    using True tk by (simp add: truncateText_def hd_append maxLength_def)
  have l: "last (truncateText t) = 0x5D"
    using True by (simp add: truncateText_def js_def)
  have "\<not> isWhiteSpace 0x5D" by (simp add: isWhiteSpace_def)
  with h l assms ne show ?thesis by simp
qed

lemma extractMainContent_ends:
  assumes "extractMainContent docElem = Inr c"
  shows "c = [] \<or> (\<not> isWhiteSpace (hd c) \<and> \<not> isWhiteSpace (last c))"
proof -
  from assms obtain raw where c: "c = truncateText (trim raw)"
    by (auto simp: extractMainContent_def cleanWhitespace_def split: option.splits)
  have "trim raw = [] \<or> (\<not> isWhiteSpace (hd (trim raw)) \<and> \<not> isWhiteSpace (last (trim raw)))"
    using trim_ends [of raw] by blast
  from truncateText_ends [OF this] show ?thesis by (simp add: c)
qed

subsection \<open>Splitting and rounding\<close>

lemma splitWhitespace_Nil:
  "dropWhile (\<lambda>c. \<not> isWhiteSpace c) s = [] \<Longrightarrow> splitWhitespace s = [s]"
  by (subst splitWhitespace.simps) (simp only: list.case)

lemma splitWhitespace_Cons:
  "dropWhile (\<lambda>c. \<not> isWhiteSpace c) s = c # rest \<Longrightarrow>
     splitWhitespace s
       = takeWhile (\<lambda>c. \<not> isWhiteSpace c) s # splitWhitespace (dropWhile isWhiteSpace rest)"
  by (subst splitWhitespace.simps) (simp only: list.case)

lemma splitWhitespace_nonempty: "length (splitWhitespace s) \<ge> 1"
  by (subst splitWhitespace.simps) (simp split: list.splits)

lemma ceil_div_200: "nat \<lceil>real n / 200\<rceil> = (n + 199) div 200"
proof -
  have "real n / 200 = of_int (int n) / of_int 200" by simp
  then have "\<lceil>real n / 200\<rceil> = - (- int n div 200)"
    by (simp only: ceiling_divide_eq_div)
  also have "\<dots> = (int n + 199) div 200" by linarith
  finally have "\<lceil>real n / 200\<rceil> = int ((n + 199) div 200)"
    by (simp add: zdiv_int)
  then show ?thesis by simp
qed

lemma extractPageData_div:
  "extractPageData p =
     (case extractMainContent (documentElement p) of
        Inl e \<Rightarrow> Inl e
      | Inr text \<Rightarrow>
          Inr \<lparr> url = location_href p,
                title = (if document_title p = [] then js ''Untitled'' else document_title p),
                domain = location_hostname p,
                timestamp = clock p,
                content = text,
                wordCount = length (splitWhitespace text),
                readingTime = (length (splitWhitespace text) + 199) div 200 \<rparr>)"
  by (simp only: extractPageData_def ceil_div_200)

subsection \<open>Truncation\<close>

lemma truncateText_length:
  "length (truncateText t) = (if length t > maxLength then maxLength + 15 else length t)"
  by (simp add: truncateText_def js_def maxLength_def)

lemma longPage_content:
  "extractMainContent (documentElement longPage) = Inr (replicate 5000 0x61 @ js ''... [truncated]'')"
proof -
  have nw: "\<not> isWhiteSpace 0x61" by (simp add: isWhiteSpace_def)
  have m: "mainElement (documentElement longPage) = Some (Element (js ''body'') [] [Text (replicate 5001 0x61)])"
    by (simp add: mainElement_def mainSelectors_def querySelector_def longPage_def examplePage_def js_def)
  have t: "truncateText (replicate 5001 0x61) = replicate 5000 0x61 @ js ''... [truncated]''"
    by (simp add: truncateText_def maxLength_def)
  show ?thesis
    by (simp add: extractMainContent_def m cleanWhitespace_replicate [OF nw] t)
qed

lemma dropWhile_replicate_append:
  "P c \<Longrightarrow> dropWhile P (replicate n c @ ys) = dropWhile P ys"
  by (induction n) simp_all

lemma takeWhile_replicate_append:
  "P c \<Longrightarrow> takeWhile P (replicate n c @ ys) = replicate n c @ takeWhile P ys"
  by (induction n) simp_all

lemma longPage_split:
  "splitWhitespace (replicate 5000 0x61 @ js ''... [truncated]'')
     = [replicate 5000 0x61 @ js ''...'', js ''[truncated]'']"
proof -
  let ?nw = "\<lambda>c. \<not> isWhiteSpace c"
  have nw: "\<not> isWhiteSpace 0x61" by (simp add: isWhiteSpace_def)
  have "dropWhile ?nw (replicate 5000 0x61 @ js ''... [truncated]'') = dropWhile ?nw (js ''... [truncated]'')"
    using nw by (rule dropWhile_replicate_append)
  also have "\<dots> = 0x20 # js ''[truncated]''"
    by (simp add: js_def isWhiteSpace_def)
  finally have d: "dropWhile ?nw (replicate 5000 0x61 @ js ''... [truncated]'') = 0x20 # js ''[truncated]''" .
  have "takeWhile ?nw (replicate 5000 0x61 @ js ''... [truncated]'')
          = replicate 5000 0x61 @ takeWhile ?nw (js ''... [truncated]'')"
    using nw by (rule takeWhile_replicate_append)
  also have "\<dots> = replicate 5000 0x61 @ js ''...''"
    by (simp add: js_def isWhiteSpace_def)
  finally have t: "takeWhile ?nw (replicate 5000 0x61 @ js ''... [truncated]'') = replicate 5000 0x61 @ js ''...''" .
  have r: "splitWhitespace (dropWhile isWhiteSpace (js ''[truncated]'')) = [js ''[truncated]'']"
    by (simp add: splitWhitespace_Nil js_def isWhiteSpace_def)
  show ?thesis
    by (simp only: splitWhitespace_Cons [OF d] t r)
qed

text \<open>
  Claim C1 at a page whose cleaned text has 5001 code units: the content is the first
  5000 of them followed by the marker of 15, 5015 in all, above \<open>maxLength\<close>; the page
  data with this content passes the emission gate and is sent, and the store keeps the
  content at that length.
\<close>

theorem truncateText_exceeds_maxLength:
  "extractMainContent (documentElement longPage) = Inr (replicate 5000 0x61 @ js ''... [truncated]'')
   \<and> length (replicate 5000 0x61 @ js ''... [truncated]'') = 5015
   \<and> maxLength = 5000
   \<and> contentScript longPage =
       Sent \<lparr> url = js ''https://example.com/article'', title = js ''Untitled'',
              domain = js ''example.com'', timestamp = js ''2026-02-06T10:00:00.000Z'',
              content = replicate 5000 0x61 @ js ''... [truncated]'', wordCount = 2, readingTime = 1 \<rparr>
   \<and> map (\<lambda>entry. length (content entry))
         (historyOf (snd (savePageData (exampleEnv 0)
            \<lparr> url = js ''https://example.com/article'', title = js ''Untitled'',
              domain = js ''example.com'', timestamp = js ''2026-02-06T10:00:00.000Z'',
              content = replicate 5000 0x61 @ js ''... [truncated]'', wordCount = 2, readingTime = 1 \<rparr>
            None)))
       = [5015]"
proof (intro conjI)
  show c: "extractMainContent (documentElement longPage) = Inr (replicate 5000 0x61 @ js ''... [truncated]'')"
    by (rule longPage_content)
  show "length (replicate 5000 0x61 @ js ''... [truncated]'') = 5015"
    by (simp add: js_def)
  show "maxLength = 5000"
    by (simp add: maxLength_def)
  have s: "\<not> skipUrl (js ''https://example.com/article'')"
    by (simp add: skipUrl_def skipPatterns_def js_def)
  have f: "location_href longPage = js ''https://example.com/article''"
    "location_hostname longPage = js ''example.com''" "document_title longPage = []"
    "clock longPage = js ''2026-02-06T10:00:00.000Z''" "\<not> browsingDigestLoaded longPage"
    by (simp_all add: longPage_def examplePage_def)
  show "contentScript longPage =
       Sent \<lparr> url = js ''https://example.com/article'', title = js ''Untitled'',
              domain = js ''example.com'', timestamp = js ''2026-02-06T10:00:00.000Z'',
              content = replicate 5000 0x61 @ js ''... [truncated]'', wordCount = 2, readingTime = 1 \<rparr>"
    by (simp add: contentScript_def s f extractPageData_div c longPage_split)
  show "map (\<lambda>entry. length (content entry))
         (historyOf (snd (savePageData (exampleEnv 0)
            \<lparr> url = js ''https://example.com/article'', title = js ''Untitled'',
              domain = js ''example.com'', timestamp = js ''2026-02-06T10:00:00.000Z'',
              content = replicate 5000 0x61 @ js ''... [truncated]'', wordCount = 2, readingTime = 1 \<rparr>
            None)))
       = [5015]"
    by (simp add: savePageData_def exampleEnv_def historyOf_def newEntry_def pageData.extend_def
        MAX_ENTRIES_def js_def)
qed

subsection \<open>Word count and reading time\<close>

lemma specTokens_Nil: "specTokens [] = []"
  by (subst specTokens.simps) simp

lemma specTokens_Cons:
  "\<not> isWhiteSpace h \<Longrightarrow>
     specTokens (h # t)
       = takeWhile (\<lambda>c. \<not> isWhiteSpace c) (h # t) # specTokens (dropWhile (\<lambda>c. \<not> isWhiteSpace c) t)"
  by (subst specTokens.simps) simp

lemma specTokens_skip: "isWhiteSpace c \<Longrightarrow> specTokens (c # rest) = specTokens (dropWhile isWhiteSpace rest)"
  by (subst specTokens.simps, subst (2) specTokens.simps) simp

lemma splitWhitespace_specTokens:
  "s \<noteq> [] \<Longrightarrow> \<not> isWhiteSpace (hd s) \<Longrightarrow> \<not> isWhiteSpace (last s) \<Longrightarrow>
     splitWhitespace s = specTokens s"
proof (induction s rule: splitWhitespace.induct)
  case (1 s)
  let ?nw = "\<lambda>c. \<not> isWhiteSpace c"
  from "1.prems" obtain h t where s: "s = h # t" and h: "\<not> isWhiteSpace h"
    by (cases s) auto
  have dn: "dropWhile ?nw s = dropWhile ?nw t" by (simp add: s h)
  have w: "specTokens s = takeWhile ?nw s # specTokens (dropWhile ?nw t)"
    unfolding s by (rule specTokens_Cons [OF h])
  show ?case
  proof (cases "dropWhile ?nw s")
    case Nil
    have tk: "takeWhile ?nw s = s"
      using takeWhile_dropWhile_id [of ?nw s] by (simp only: Nil append_Nil2)
    have "dropWhile ?nw t = []" using Nil by (simp only: dn)
    then have "specTokens s = [s]" by (simp only: w tk specTokens_Nil)
    then show ?thesis by (simp only: splitWhitespace_Nil [OF Nil])
  next
    case (Cons c rest)
    have c: "isWhiteSpace c"
      using hd_dropWhile [of ?nw s] by (simp add: Cons)
    let ?s' = "dropWhile isWhiteSpace rest"
    have app: "takeWhile ?nw s @ c # rest = s"
      using takeWhile_dropWhile_id [of ?nw s] by (simp only: Cons)
    have "last (takeWhile ?nw s @ c # rest) = last (c # rest)" by simp
    then have lastcr: "last (c # rest) = last s" by (simp only: app)
    have rne: "rest \<noteq> []"
    proof
      assume "rest = []"
      then have "last s = c" using lastcr by simp
      with c "1.prems"(3) show False by simp
    qed
    have lr: "last rest = last s" using lastcr rne by simp
    have s'ne: "?s' \<noteq> []"
    proof
      assume "?s' = []"
      then have "\<forall>x \<in> set rest. isWhiteSpace x" by (simp add: dropWhile_eq_Nil_conv)
      then have "isWhiteSpace (last rest)" using rne last_in_set by blast
      then show False using lr "1.prems"(3) by simp
    qed
    have hs': "\<not> isWhiteSpace (hd ?s')" using hd_dropWhile [OF s'ne] .
    have "last ?s' = last s" using last_dropWhile [OF s'ne] by (simp only: lr)
    then have ls': "\<not> isWhiteSpace (last ?s')" using "1.prems"(3) by simp
    have IH: "splitWhitespace ?s' = specTokens ?s'"
      using "1.IH" [OF Cons s'ne hs' ls'] .
    have "specTokens (dropWhile ?nw t) = specTokens (c # rest)" by (simp only: dn [symmetric] Cons)
    also have "\<dots> = specTokens ?s'" by (rule specTokens_skip [OF c])
    finally have "specTokens s = takeWhile ?nw s # specTokens ?s'" by (simp only: w)
    then show ?thesis by (simp only: splitWhitespace_Cons [OF Cons] IH)
  qed
qed

lemma emptyPage_data:
  "extractPageData emptyPage =
     Inr \<lparr> url = js ''https://example.com/empty'', title = js ''Untitled'', domain = js ''example.com'',
           timestamp = js ''2026-02-06T10:00:00.000Z'', content = [], wordCount = 1, readingTime = 1 \<rparr>"
  by (simp add: extractPageData_div extractMainContent_def mainElement_def mainSelectors_def
      querySelector_def emptyPage_def examplePage_def cleanWhitespace_def trim_def truncateText_def
      splitWhitespace_Nil js_def)

lemma wordyPage_content:
  "extractMainContent (documentElement wordyPage) = Inr (js ''Hi all of you'')"
  by (simp add: extractMainContent_def mainElement_def mainSelectors_def removeSelectors_def
      querySelector_def wordyPage_def examplePage_def cleanWhitespace_def trim_def truncateText_def
      classTokens.simps isAsciiWhitespace_def isWhiteSpace_def maxLength_def js_def)

text \<open>
  Claim C10. Whenever page data is extracted, its word count is at least 1 and so is its
  reading time; for empty content both are exactly 1, because the empty string splits
  into one empty piece.
\<close>

theorem extractPageData_wordCount_positive:
  "(extractPageData p = Inr data \<longrightarrow>
      wordCount data \<ge> 1 \<and> readingTime data \<ge> 1
      \<and> (content data = [] \<longrightarrow> wordCount data = 1 \<and> readingTime data = 1))
   \<and> splitWhitespace [] = [[]]"
proof (intro conjI impI)
  show e: "splitWhitespace [] = [[]]" by (simp add: splitWhitespace_Nil)
  assume a: "extractPageData p = Inr data"
  then obtain str where w: "wordCount data = length (splitWhitespace str)"
    and r: "readingTime data = (wordCount data + 199) div 200"
    and c: "content data = str"
    by (auto simp: extractPageData_div split: sum.splits)
  show w1: "wordCount data \<ge> 1" using splitWhitespace_nonempty [of str] by (simp add: w)
  then show "readingTime data \<ge> 1" by (simp add: r)
  { assume "content data = []"
    then show "wordCount data = 1" by (simp add: w c [symmetric] e)
    then show "readingTime data = 1" by (simp add: r) }
qed

theorem extractPageData_wordCount_positive_witness:
  "extractPageData emptyPage =
     Inr \<lparr> url = js ''https://example.com/empty'', title = js ''Untitled'', domain = js ''example.com'',
           timestamp = js ''2026-02-06T10:00:00.000Z'', content = [], wordCount = 1, readingTime = 1 \<rparr>
   \<and> wordCount \<lparr> url = js ''https://example.com/empty'', title = js ''Untitled'', domain = js ''example.com'',
           timestamp = js ''2026-02-06T10:00:00.000Z'', content = [], wordCount = 1, readingTime = 1 \<rparr> \<ge> 1"
  using extractPageData_wordCount_positive [where p = emptyPage] emptyPage_data by blast

text \<open>
  Claim C8 as written fails: on a page with an empty body the content is empty and has no
  whitespace-delimited token, but the word count is 1, and it is positive although the
  content is empty.
\<close>

theorem wordCount_tokens_counterexample:
  "extractPageData emptyPage =
     Inr \<lparr> url = js ''https://example.com/empty'', title = js ''Untitled'', domain = js ''example.com'',
           timestamp = js ''2026-02-06T10:00:00.000Z'', content = [], wordCount = 1, readingTime = 1 \<rparr>
   \<and> length (specTokens []) = 0"
  by (simp add: emptyPage_data specTokens_Nil)

text \<open>
  Claim C8, amended. Whenever page data is extracted with non-empty content, the word
  count is the number of whitespace-delimited tokens of the content; in every case the
  reading time is the ceiling of the word count over 200, that is the least number of
  minutes of 200 words that covers the word count, and it is at least 1.
\<close>

theorem extractPageData_wordCount_readingTime:
  "extractPageData p = Inr data \<longrightarrow>
     (content data \<noteq> [] \<longrightarrow> wordCount data = length (specTokens (content data)))
     \<and> readingTime data = nat \<lceil>real (wordCount data) / 200\<rceil>
     \<and> 200 * (readingTime data - 1) < wordCount data
     \<and> wordCount data \<le> 200 * readingTime data
     \<and> readingTime data \<ge> 1"
proof (intro conjI impI)
  assume a: "extractPageData p = Inr data"
  then obtain str where x: "extractMainContent (documentElement p) = Inr str"
    and w: "wordCount data = length (splitWhitespace str)"
    and r: "readingTime data = nat \<lceil>real (wordCount data) / 200\<rceil>"
    and c: "content data = str"
    by (auto simp: extractPageData_def split: sum.splits)
  show "readingTime data = nat \<lceil>real (wordCount data) / 200\<rceil>" by (rule r)
  have r': "readingTime data = (wordCount data + 199) div 200"
    by (simp only: r ceil_div_200)
  have w1: "wordCount data \<ge> 1" using splitWhitespace_nonempty [of str] by (simp add: w)
  then show "readingTime data \<ge> 1" by (simp add: r')
  show "200 * (readingTime data - 1) < wordCount data" using w1 by (simp add: r')
  show "wordCount data \<le> 200 * readingTime data" by (simp add: r') 
  { assume "content data \<noteq> []"
    with extractMainContent_ends [OF x] c
    have "str \<noteq> []" "\<not> isWhiteSpace (hd str)" "\<not> isWhiteSpace (last str)" by auto
    then show "wordCount data = length (specTokens (content data))"
      by (simp add: w c splitWhitespace_specTokens) }
qed

theorem extractPageData_wordCount_readingTime_witness:
  "extractPageData wordyPage =
     Inr \<lparr> url = js ''https://example.com/article'', title = js ''Untitled'', domain = js ''example.com'',
           timestamp = js ''2026-02-06T10:00:00.000Z'', content = js ''Hi all of you'',
           wordCount = 4, readingTime = 1 \<rparr>
   \<and> js ''Hi all of you'' \<noteq> []
   \<and> length (specTokens (js ''Hi all of you'')) = 4
   \<and> nat \<lceil>real 4 / 200\<rceil> = 1"
proof -
  let ?d = "\<lparr> url = js ''https://example.com/article'', title = js ''Untitled'', domain = js ''example.com'',
           timestamp = js ''2026-02-06T10:00:00.000Z'', content = js ''Hi all of you'',
           wordCount = 4, readingTime = 1 \<rparr>"
  have s: "splitWhitespace (js ''Hi all of you'') = [js ''Hi'', js ''all'', js ''of'', js ''you'']"
    by (simp add: splitWhitespace.simps js_def isWhiteSpace_def)
  have f: "location_href wordyPage = js ''https://example.com/article''"
    "location_hostname wordyPage = js ''example.com''" "document_title wordyPage = []"
    "clock wordyPage = js ''2026-02-06T10:00:00.000Z''"
    by (simp_all add: wordyPage_def examplePage_def)
  have d: "extractPageData wordyPage = Inr ?d"
    by (simp add: extractPageData_div wordyPage_content s f)
  have n: "js ''Hi all of you'' \<noteq> []"
    by (simp add: js_def)
  from extractPageData_wordCount_readingTime [where p = wordyPage and data = ?d] d n
  have "wordCount ?d = length (specTokens (content ?d))" and "readingTime ?d = nat \<lceil>real (wordCount ?d) / 200\<rceil>"
    by simp_all
  then have "length (specTokens (js ''Hi all of you'')) = 4" and "nat \<lceil>real 4 / 200\<rceil> = 1"
    by simp_all
  with d n show ?thesis by blast
qed

section \<open>Properties of the record store\<close>

lemma sliceLast_length: "length (sliceLast n xs) = min n (length xs)"
  by (simp add: sliceLast_def)

lemma sliceLast_all: "length xs \<le> n \<Longrightarrow> sliceLast n xs = xs"
  by (simp add: sliceLast_def)

lemma sliceLast_append:
  "sliceLast n (sliceLast n xs @ ys) = sliceLast n (xs @ ys)"
proof (cases "length xs \<le> n")
  case True
  then show ?thesis by (simp add: sliceLast_all)
next
  case False
  then have n: "n \<le> length xs" by simp
  have "sliceLast n (sliceLast n xs @ ys) = drop (length ys) (drop (length xs - n) xs @ ys)"
    using n by (simp add: sliceLast_def)
  also have "\<dots> = drop (length ys) (drop (length xs - n) (xs @ ys))"
    by simp
  also have "\<dots> = drop (length ys + (length xs - n)) (xs @ ys)"
    by (simp only: drop_drop)
  also have "\<dots> = sliceLast n (xs @ ys)"
    using n by (simp add: sliceLast_def add.commute)
  finally show ?thesis .
qed

lemma savePageData_ok:
  "storageOk e \<Longrightarrow>
     savePageData e data st = (Inr (), Some (sliceLast MAX_ENTRIES (historyOf st @ [newEntry e data])))"
  by (simp add: savePageData_def storageOk_def Let_def sliceLast_all)

lemma savePageData_success_iff:
  "fst (savePageData e data st) = Inr () \<longleftrightarrow> storageOk e"
  by (auto simp: savePageData_def storageOk_def Let_def split: option.splits)

lemma saveAll_ok:
  "list_all (\<lambda>x. storageOk (fst x)) xs \<Longrightarrow> xs \<noteq> [] \<Longrightarrow>
     saveAll xs st = Some (sliceLast MAX_ENTRIES (historyOf st @ map (\<lambda>x. newEntry (fst x) (snd x)) xs))"
proof (induction xs arbitrary: st)
  case Nil then show ?case by simp
next
  case (Cons x rest)
  obtain e data where x: "x = (e, data)" by (cases x)
  from Cons.prems x have ok: "storageOk e" and oks: "list_all (\<lambda>x. storageOk (fst x)) rest" by simp_all
  let ?h1 = "sliceLast MAX_ENTRIES (historyOf st @ [newEntry e data])"
  have step: "saveAll (x # rest) st = saveAll rest (Some ?h1)"
    by (simp add: x savePageData_ok [OF ok])
  have h1: "historyOf (Some ?h1) = ?h1" by (simp add: historyOf_def)
  show ?case
  proof (cases "rest = []")
    case True
    then show ?thesis by (simp add: x savePageData_ok [OF ok])
  next
    case False
    from Cons.IH [OF oks False, of "Some ?h1"]
    show ?thesis by (simp add: x savePageData_ok [OF ok] h1 sliceLast_append)
  qed
qed

text \<open>
  Claim C2. Whatever the store held, after a successful append it holds at most
  \<open>MAX_ENTRIES\<close> (500) entries: the last 500 of the old history followed by the new entry.
  Below the cap nothing is dropped; at or above it the oldest entries go first. After 501
  successful appends in a row the store holds exactly the last 500 of them.
\<close>

theorem savePageData_retention:
  "(savePageData e data st = (Inr (), st') \<longrightarrow>
      st' = Some (sliceLast MAX_ENTRIES (historyOf st @ [newEntry e data]))
      \<and> length (historyOf st') \<le> MAX_ENTRIES
      \<and> (length (historyOf st) < MAX_ENTRIES \<longrightarrow> historyOf st' = historyOf st @ [newEntry e data])
      \<and> (length (historyOf st) \<ge> MAX_ENTRIES \<longrightarrow>
            length (historyOf st') = MAX_ENTRIES
            \<and> historyOf st' = drop (length (historyOf st) + 1 - MAX_ENTRIES) (historyOf st @ [newEntry e data])))
   \<and> (list_all (\<lambda>x. storageOk (fst x)) xs \<and> length xs = MAX_ENTRIES + 1 \<longrightarrow>
        historyOf (saveAll xs st) = map (\<lambda>x. newEntry (fst x) (snd x)) (tl xs)
        \<and> length (historyOf (saveAll xs st)) = MAX_ENTRIES)"
proof (intro conjI impI)
  assume a: "savePageData e data st = (Inr (), st')"
  then have "fst (savePageData e data st) = Inr ()" by simp
  then have ok: "storageOk e" by (simp add: savePageData_success_iff)
  from a savePageData_ok [OF ok, of data st]
  show s: "st' = Some (sliceLast MAX_ENTRIES (historyOf st @ [newEntry e data]))" by simp
  show "length (historyOf st') \<le> MAX_ENTRIES"
    by (simp add: s historyOf_def sliceLast_length)
  { assume "length (historyOf st) < MAX_ENTRIES"
    then show "historyOf st' = historyOf st @ [newEntry e data]"
      by (simp add: s historyOf_def [of "Some _"] sliceLast_all) }
  { assume "MAX_ENTRIES \<le> length (historyOf st)"
    then show "length (historyOf st') = MAX_ENTRIES"
      by (simp add: s historyOf_def [of "Some _"] sliceLast_length)
    show "historyOf st' = drop (length (historyOf st) + 1 - MAX_ENTRIES) (historyOf st @ [newEntry e data])"
      by (simp add: s historyOf_def [of "Some _"] sliceLast_def) }
next
  assume b: "list_all (\<lambda>x. storageOk (fst x)) xs \<and> length xs = MAX_ENTRIES + 1"
  then have ne: "xs \<noteq> []" by auto
  from b have len: "length xs = Suc MAX_ENTRIES" by simp
  have r: "saveAll xs st = Some (sliceLast MAX_ENTRIES (historyOf st @ map (\<lambda>x. newEntry (fst x) (snd x)) xs))"
    using saveAll_ok [of xs st] b ne by simp
  show "historyOf (saveAll xs st) = map (\<lambda>x. newEntry (fst x) (snd x)) (tl xs)"
    by (simp add: r historyOf_def sliceLast_def len drop_Suc map_tl)
  then show "length (historyOf (saveAll xs st)) = MAX_ENTRIES"
    by (simp add: len)
qed

theorem savePageData_retention_witness:
  "savePageData (exampleEnv 4) (exampleData (js ''u'') (js ''t'')) (Some exampleHistory)
     = (Inr (), Some (exampleHistory @ [newEntry (exampleEnv 4) (exampleData (js ''u'') (js ''t''))]))
   \<and> length (historyOf (Some exampleHistory)) < MAX_ENTRIES
   \<and> length (historyOf (Some (exampleHistory @ [newEntry (exampleEnv 4) (exampleData (js ''u'') (js ''t''))])))
       \<le> MAX_ENTRIES
   \<and> list_all (\<lambda>x. storageOk (fst x)) exampleBatch
   \<and> length exampleBatch = MAX_ENTRIES + 1
   \<and> historyOf (saveAll exampleBatch (Some exampleHistory))
       = map (\<lambda>x. newEntry (fst x) (snd x)) (tl exampleBatch)
   \<and> length (historyOf (saveAll exampleBatch (Some exampleHistory))) = MAX_ENTRIES"
proof -
  let ?d = "exampleData (js ''u'') (js ''t'')"
  let ?st' = "Some (exampleHistory @ [newEntry (exampleEnv 4) ?d])"
  have s: "savePageData (exampleEnv 4) ?d (Some exampleHistory) = (Inr (), ?st')"
    by (simp add: savePageData_def exampleEnv_def historyOf_def exampleHistory_def MAX_ENTRIES_def Let_def)
  have l: "length (historyOf (Some exampleHistory)) < MAX_ENTRIES"
    by (simp add: historyOf_def exampleHistory_def MAX_ENTRIES_def)
  have a: "list_all (\<lambda>x. storageOk (fst x)) exampleBatch"
    by (simp add: exampleBatch_def list_all_iff storageOk_def exampleEnv_def del: upt_rec_numeral)
  have n: "length exampleBatch = MAX_ENTRIES + 1"
    by (simp add: exampleBatch_def MAX_ENTRIES_def del: upt_rec_numeral)
  note inst = savePageData_retention [where e = "exampleEnv 4" and data = ?d
      and st = "Some exampleHistory" and st' = ?st' and xs = exampleBatch]
  from inst s have b: "length (historyOf ?st') \<le> MAX_ENTRIES"
    by blast
  from inst a n
  have "historyOf (saveAll exampleBatch (Some exampleHistory))
          = map (\<lambda>x. newEntry (fst x) (snd x)) (tl exampleBatch)
        \<and> length (historyOf (saveAll exampleBatch (Some exampleHistory))) = MAX_ENTRIES"
    by blast
  with s l a n b show ?thesis by blast
qed





text \<open>
  Claim C5. The export of a query result has \<open>totalPages\<close> equal to the length of the
  result, one page per entry in the same order with the six fields \<open>url\<close>, \<open>title\<close>,
  \<open>content\<close>, \<open>timestamp\<close>, \<open>domain\<close> and \<open>readingTime\<close> of the entry and no other field,
  and as date the requested date, or \<open>all\<close> when none was given. A failed read fails the
  export with the same message.
\<close>

theorem exportData_shape:
  "(getHistory dateStr e date st = Inr history \<longrightarrow>
      (\<exists>doc. exportData dateStr e date st = Inr doc
         \<and> totalPages doc = length history
         \<and> pages doc = map exportPage history
         \<and> length (pages doc) = totalPages doc
         \<and> list_all2 (\<lambda>p entry.
               page_url p = url entry \<and> page_title p = title entry
               \<and> page_content p = content entry \<and> page_timestamp p = timestamp entry
               \<and> page_domain p = domain entry \<and> page_readingTime p = readingTime entry)
             (pages doc) history
         \<and> export_date doc = (if given date then the date else js ''all'')
         \<and> exportedAt doc = now e))
   \<and> (getHistory dateStr e date st = Inl msg \<longrightarrow> exportData dateStr e date st = Inl msg)"
  by (auto simp: exportData_def exportPage_def list_all2_conv_all_nth)

theorem exportData_shape_witness:
  "getHistory isoDay (exampleEnv 0) (Some (js ''2026-02-06'')) (Some exampleHistory) = Inr [exampleHistory ! 1]
   \<and> exportData isoDay (exampleEnv 0) (Some (js ''2026-02-06'')) (Some exampleHistory)
       = Inr \<lparr> exportedAt = js ''2026-02-07T08:00:00.000Z'', export_date = js ''2026-02-06'',
               totalPages = 1, pages = [exportPage (exampleHistory ! 1)] \<rparr>
   \<and> getHistory isoDay (exampleEnv 0) None (Some exampleHistory) = Inr exampleHistory
   \<and> exportData isoDay (exampleEnv 0) None (Some exampleHistory)
       = Inr \<lparr> exportedAt = js ''2026-02-07T08:00:00.000Z'', export_date = js ''all'',
               totalPages = 3, pages = map exportPage exampleHistory \<rparr>
   \<and> getHistory isoDay ((exampleEnv 0)\<lparr>getLastError := Some (js ''unavailable'')\<rparr>) None None
       = Inl (js ''unavailable'')
   \<and> exportData isoDay ((exampleEnv 0)\<lparr>getLastError := Some (js ''unavailable'')\<rparr>) None None
       = Inl (js ''unavailable'')"
proof -
  have g1: "getHistory isoDay (exampleEnv 0) (Some (js ''2026-02-06'')) (Some exampleHistory) = Inr [exampleHistory ! 1]"
    by (simp add: getHistory_def given_def historyOf_def exampleEnv_def exampleHistory_def newEntry_def
        exampleData_def pageData.extend_def isoDay_def js_def)
  have g2: "getHistory isoDay (exampleEnv 0) None (Some exampleHistory) = Inr exampleHistory"
    by (simp add: getHistory_def given_def historyOf_def exampleEnv_def)
  have g3: "getHistory isoDay ((exampleEnv 0)\<lparr>getLastError := Some (js ''unavailable'')\<rparr>) None None
       = Inl (js ''unavailable'')"
    by (simp add: getHistory_def)
  have gv: "given (Some (js ''2026-02-06''))" "\<not> given None"
    by (simp_all add: given_def js_def)
  have nw: "now (exampleEnv 0) = js ''2026-02-07T08:00:00.000Z''"
    by (simp add: exampleEnv_def)
  have len: "length exampleHistory = 3" by (simp add: exampleHistory_def)
  from exportData_shape [where e = "exampleEnv 0" and dateStr = isoDay and st = "Some exampleHistory"
      and date = "Some (js ''2026-02-06'')" and history = "[exampleHistory ! 1]"] g1
  obtain doc1 where "exportData isoDay (exampleEnv 0) (Some (js ''2026-02-06'')) (Some exampleHistory) = Inr doc1"
    and "totalPages doc1 = length [exampleHistory ! 1]" and "pages doc1 = map exportPage [exampleHistory ! 1]"
    and "export_date doc1 = (if given (Some (js ''2026-02-06'')) then the (Some (js ''2026-02-06'')) else js ''all'')"
    and "exportedAt doc1 = now (exampleEnv 0)"
    by blast
  then have d1: "exportData isoDay (exampleEnv 0) (Some (js ''2026-02-06'')) (Some exampleHistory)
       = Inr \<lparr> exportedAt = js ''2026-02-07T08:00:00.000Z'', export_date = js ''2026-02-06'',
               totalPages = 1, pages = [exportPage (exampleHistory ! 1)] \<rparr>"
    by (simp add: gv nw)
  from exportData_shape [where e = "exampleEnv 0" and dateStr = isoDay and st = "Some exampleHistory"
      and date = None and history = exampleHistory] g2
  obtain doc2 where "exportData isoDay (exampleEnv 0) None (Some exampleHistory) = Inr doc2"
    and "totalPages doc2 = length exampleHistory" and "pages doc2 = map exportPage exampleHistory"
    and "export_date doc2 = (if given None then the None else js ''all'')"
    and "exportedAt doc2 = now (exampleEnv 0)"
    by blast
  then have d2: "exportData isoDay (exampleEnv 0) None (Some exampleHistory)
       = Inr \<lparr> exportedAt = js ''2026-02-07T08:00:00.000Z'', export_date = js ''all'',
               totalPages = 3, pages = map exportPage exampleHistory \<rparr>"
    by (simp add: gv nw len)
  from exportData_shape [where e = "(exampleEnv 0)\<lparr>getLastError := Some (js ''unavailable'')\<rparr>"
      and dateStr = isoDay and st = None and date = None and msg = "js ''unavailable''"] g3
  have d3: "exportData isoDay ((exampleEnv 0)\<lparr>getLastError := Some (js ''unavailable'')\<rparr>) None None
       = Inl (js ''unavailable'')"
    by blast
  from g1 d1 g2 d2 g3 d3 show ?thesis by blast
qed


end
